theory Spec2Isabelle
  imports Complex_Main "HOL-Library.Sublist" "HOL-Library.Multiset"
begin

section \<open>The catalog\<close>

text \<open>
  The errors that the modelled part of \<^verbatim>\<open>BookRecommendation.py\<close> can raise.
  \<open>ReError\<close> stands for \<^verbatim>\<open>re.error\<close>.
\<close>

datatype py_error = KeyError | IndexError | EOFError | ReError | UnboundLocalError

text \<open>
  One row of the data frame \<^verbatim>\<open>data\<close>. The index column \<^verbatim>\<open>bookId\<close> is kept
  polymorphic: the recommender only compares identifiers for equality.
\<close>

record 'id book =
  bookId :: 'id
  author :: string
  title :: string
  rating :: real
  description :: string
  isbn :: string
  genres :: string
  coverImg :: string

type_synonym 'id catalog = "'id book list"

section \<open>Index and list access\<close>

text \<open>
  \<^verbatim>\<open>data.index.get_loc(key)\<close>: the position of the label that equals the key,
  \<^verbatim>\<open>KeyError\<close> when no label does. Keys and labels are values of one type. For a
  label that occurs several times pandas returns a slice or mask and
  \<^verbatim>\<open>similarity_scores[0]\<close> is then the row of the first occurrence, which is the
  position returned here.
\<close>

fun get_loc :: "'id list \<Rightarrow> 'id \<Rightarrow> py_error + nat" where
  "get_loc [] key = Inl KeyError"
| "get_loc (x # xs) key =
     (if key = x then Inr 0
      else (case get_loc xs key of Inl e \<Rightarrow> Inl e | Inr n \<Rightarrow> Inr (Suc n)))"

text \<open>Python list indexing \<^verbatim>\<open>xs[i]\<close>, with negative indices counted from the end.\<close>

definition py_index :: "'a list \<Rightarrow> int \<Rightarrow> py_error + 'a" where
  "py_index xs i =
     (if 0 \<le> i \<and> i < int (length xs) then Inr (xs ! nat i)
      else if i < 0 \<and> - int (length xs) \<le> i then Inr (xs ! nat (int (length xs) + i))
      else Inl IndexError)"

text \<open>\<^verbatim>\<open>data.iloc[pos]\<close> for a non-negative position.\<close>

definition iloc :: "'id catalog \<Rightarrow> nat \<Rightarrow> py_error + 'id book" where
  "iloc data pos = (if pos < length data then Inr (data ! pos) else Inl IndexError)"

text \<open>\<^verbatim>\<open>range(a, b)\<close>.\<close>

definition py_range :: "int \<Rightarrow> int \<Rightarrow> int list" where
  "py_range a b = [a..b - 1]"

section \<open>The similarity ranking\<close>

text \<open>
  \<^verbatim>\<open>TfidfVectorizer\<close> and \<^verbatim>\<open>cosine_similarity\<close> are library code. They enter as two
  parameters: \<open>fit_transform corpus i\<close> is row \<open>i\<close> of
  \<^verbatim>\<open>tfidf.fit_transform(corpus)\<close>, and \<open>cosine x y\<close> is the cosine similarity of two
  rows, a value of any linearly ordered type. The matrix has one row per catalog row.
\<close>

definition tfidf_matrix :: "(string list \<Rightarrow> nat \<Rightarrow> 'v) \<Rightarrow> 'id catalog \<Rightarrow> 'v list" where
  "tfidf_matrix fit_transform data =
     map (fit_transform (map description data)) [0..<length data]"

text \<open>Row 0 of \<^verbatim>\<open>cosine_similarity(x, Y)\<close> for a single row \<open>x\<close>.\<close>

definition cosine_similarity :: "('v \<Rightarrow> 'v \<Rightarrow> 's) \<Rightarrow> 'v \<Rightarrow> 'v list \<Rightarrow> 's list" where
  "cosine_similarity cosine x Y = map (cosine x) Y"

text \<open>
  \<^verbatim>\<open>sorted(similar_books, key=lambda x: x[1], reverse=True)\<close>: Python's sort is stable,
  also with \<^verbatim>\<open>reverse=True\<close>, so pairs of equal score keep their order. Each pair is
  put in front of the first later pair whose score is not larger.
\<close>

fun insort_desc :: "nat \<times> 's::linorder \<Rightarrow> (nat \<times> 's) list \<Rightarrow> (nat \<times> 's) list" where
  "insort_desc x [] = [x]"
| "insort_desc x (y # ys) =
     (if snd y \<le> snd x then x # y # ys else y # insort_desc x ys)"

definition sorted_reverse :: "(nat \<times> 's::linorder) list \<Rightarrow> (nat \<times> 's) list" where
  "sorted_reverse xs = foldr insort_desc xs []"

text \<open>
  The first four lines shared by \<^verbatim>\<open>similar_summary\<close> and \<^verbatim>\<open>similar_genre\<close>:
  \<^verbatim>\<open>sorted_similar_books\<close> for the catalog row at position \<open>loc\<close>.
\<close>

definition sorted_similar_books ::
  "(string list \<Rightarrow> nat \<Rightarrow> 'v) \<Rightarrow> ('v \<Rightarrow> 'v \<Rightarrow> 's::linorder) \<Rightarrow> 'id catalog \<Rightarrow> nat \<Rightarrow> (nat \<times> 's) list" where
  "sorted_similar_books fit_transform cosine data loc =
     (let M = tfidf_matrix fit_transform data;
          similarity_scores = cosine_similarity cosine (M ! loc) M;
          similar_books = enumerate 0 similarity_scores
      in sorted_reverse similar_books)"

text \<open>
  The \<^verbatim>\<open>for\<close> loop of both functions: \<open>acc\<close> is \<^verbatim>\<open>recommended_books\<close>, and an
  out-of-range read ends the loop with the error.
\<close>

fun collect :: "'id catalog \<Rightarrow> (nat \<times> 's) list \<Rightarrow> int list \<Rightarrow> 'id list \<Rightarrow> py_error + 'id list" where
  "collect data ssb [] acc = Inr acc"
| "collect data ssb (i # is) acc =
     (case py_index ssb i of
        Inl e \<Rightarrow> Inl e
      | Inr p \<Rightarrow>
          (case iloc data (fst p) of
             Inl e \<Rightarrow> Inl e
           | Inr row \<Rightarrow> collect data ssb is (acc @ [bookId row])))"

definition similar_summary ::
  "(string list \<Rightarrow> nat \<Rightarrow> 'v) \<Rightarrow> ('v \<Rightarrow> 'v \<Rightarrow> 's::linorder) \<Rightarrow> 'id catalog \<Rightarrow> 'id \<Rightarrow> int
     \<Rightarrow> py_error + 'id list" where
  "similar_summary fit_transform cosine data key k =
     (case get_loc (map bookId data) key of
        Inl e \<Rightarrow> Inl e
      | Inr loc \<Rightarrow>
          collect data (sorted_similar_books fit_transform cosine data loc) (py_range 1 (k + 1)) [])"

definition similar_genre ::
  "(string list \<Rightarrow> nat \<Rightarrow> 'v) \<Rightarrow> ('v \<Rightarrow> 'v \<Rightarrow> 's::linorder) \<Rightarrow> 'id catalog \<Rightarrow> 'id \<Rightarrow> int
     \<Rightarrow> py_error + 'id list" where
  "similar_genre fit_transform cosine data key k =
     (case get_loc (map bookId data) key of
        Inl e \<Rightarrow> Inl e
      | Inr loc \<Rightarrow>
          collect data (sorted_similar_books fit_transform cosine data loc)
            (py_range (k + 1) (2 * k + 1)) [])"

section \<open>Title resolution\<close>

text \<open>
  \<^verbatim>\<open>str.lower()\<close> on ASCII text: the twenty-six capital letters are replaced, every
  other character is kept. Titles and queries are taken to be ASCII.
\<close>

definition lower_char :: "char \<Rightarrow> char" where
  "lower_char c =
     (case map_of (zip ''ABCDEFGHIJKLMNOPQRSTUVWXYZ'' ''abcdefghijklmnopqrstuvwxyz'') c of
        Some l \<Rightarrow> l
      | None \<Rightarrow> c)"

definition lower :: "string \<Rightarrow> string" where
  "lower s = map lower_char s"

text \<open>
  \<^verbatim>\<open>get_possible_books\<close>: the titles, in catalog order, that contain the query as a
  contiguous substring once both are lowered (\<^verbatim>\<open>book in name.lower()\<close>).
\<close>

definition get_possible_books :: "'id catalog \<Rightarrow> string \<Rightarrow> string list" where
  "get_possible_books data book =
     filter (\<lambda>name. sublist (lower book) (lower name)) (map title data)"

text \<open>
  What \<^verbatim>\<open>correct_name\<close> returns: \<^verbatim>\<open>None\<close> when the \<^verbatim>\<open>if\<close> is not entered, a
  title, or the integers 0 and 1. The second component of the result is what it prints.
\<close>

datatype name_result = NoResult | Title string | Zero | One

definition correct_name :: "'id catalog \<Rightarrow> string \<Rightarrow> name_result \<times> string list" where
  "correct_name data book_name =
     (if book_name \<notin> set (map (\<lambda>row. lower (title row)) data) then
        (let possible_books = get_possible_books data book_name
         in if length possible_books = 1 then (Title (possible_books ! 0), [])
            else if possible_books = [] then (Zero, [''Book not found!''])
            else (One, [''Book not found!'', ''Did you mean: ''] @ possible_books))
      else (NoResult, []))"

text \<open>
  \<^verbatim>\<open>data['title'].str.contains(book_name, case=False)\<close> treats the query as a regular
  expression. A query without any of the characters \<^verbatim>\<open>\ . ^ $ * + ? { } [ ] | ( )\<close>
  matches as a case-insensitive substring. For any other query the regular-expression
  engine is the parameter \<open>re_compile\<close>, which gives the matcher of a pattern, or
  \<open>None\<close> when \<^verbatim>\<open>re.error\<close> is raised.
\<close>

definition is_literal :: "string \<Rightarrow> bool" where
  "is_literal pat = (\<forall>c\<in>set pat. c \<notin> set (CHR 0x5C # ''.^$*+?{}[]|()''))"

definition str_contains ::
  "(string \<Rightarrow> (string \<Rightarrow> bool) option) \<Rightarrow> string \<Rightarrow> (string \<Rightarrow> bool) option" where
  "str_contains re_compile pat =
     (if is_literal pat then Some (\<lambda>s. sublist (lower pat) (lower s)) else re_compile pat)"

text \<open>
  \<^verbatim>\<open>data[data['title'].str.contains(book_name, case=False)].index[0]\<close>: the identifier
  of the first matching row, \<^verbatim>\<open>IndexError\<close> when no row matches.
\<close>

definition first_match ::
  "(string \<Rightarrow> (string \<Rightarrow> bool) option) \<Rightarrow> 'id catalog \<Rightarrow> string \<Rightarrow> py_error + 'id" where
  "first_match re_compile data book_name =
     (case str_contains re_compile book_name of
        None \<Rightarrow> Inl ReError
      | Some matches \<Rightarrow>
          (case filter (\<lambda>row. matches (title row)) data of
             [] \<Rightarrow> Inl IndexError
           | row # _ \<Rightarrow> Inr (bookId row)))"

text \<open>
  Standard input is the list of lines still to be read; \<^verbatim>\<open>input\<close> raises
  \<^verbatim>\<open>EOFError\<close> when none is left. \<open>input_loop\<close> is
  \<^verbatim>\<open>while not book_name: book_name = input("Book: ")\<close> entered with a false
  \<^verbatim>\<open>book_name\<close>: it returns the first non-empty line, the lines left, and the prompts
  written. \<open>ask_name\<close> is the same loop for any \<^verbatim>\<open>book_name\<close>.
\<close>

fun input_loop :: "string list \<Rightarrow> (py_error + string) \<times> string list \<times> string list" where
  "input_loop [] = (Inl EOFError, [], [''Book: ''])"
| "input_loop (l # ls) =
     (if l = [] then (case input_loop ls of (r, rest, out) \<Rightarrow> (r, rest, ''Book: '' # out))
      else (Inr l, ls, [''Book: '']))"

definition ask_name ::
  "string option \<Rightarrow> string list \<Rightarrow> (py_error + string) \<times> string list \<times> string list" where
  "ask_name book_name stdin =
     (case book_name of
        None \<Rightarrow> input_loop stdin
      | Some s \<Rightarrow> if s = [] then input_loop stdin else (Inr s, stdin, []))"

text \<open>
  \<^verbatim>\<open>name_to_bookId\<close> returns the identifier or \<^verbatim>\<open>None\<close>, the input left, and what was
  written to the console. The bare \<^verbatim>\<open>except\<close> turns every error of the body into the
  line \<^verbatim>\<open>Invalid input.\<close> and the result \<^verbatim>\<open>None\<close>. \<^verbatim>\<open>correct_name\<close> is called once for
  the comparison with 0 and, when that fails, a second time for the comparison with 1.
  In the branch for 1 the function calls itself without a name and drops what the call
  returns; control then reaches the lookup of line 128 like in the other branches.
  Every nested call reads at least one line, so on a finite input the recursion ends.
\<close>

function name_to_bookId ::
  "(string \<Rightarrow> (string \<Rightarrow> bool) option) \<Rightarrow> 'id catalog \<Rightarrow> string option \<Rightarrow> string list
     \<Rightarrow> 'id option \<times> string list \<times> string list" where
  "name_to_bookId re_compile data book_name stdin =
     (case ask_name book_name stdin of
        (Inl e, rest, out) \<Rightarrow> (None, rest, out @ [''Invalid input.''])
      | (Inr typed, rest, out) \<Rightarrow>
          (let name = lower typed;
               c1 = correct_name data name
           in if fst c1 = Zero then (None, rest, out @ [name] @ snd c1)
              else
                (let c2 = correct_name data name;
                     nested = (if fst c2 = One then name_to_bookId re_compile data None rest
                               else (None, rest, []));
                     rest' = fst (snd nested);
                     out' = out @ [name] @ snd c1 @ snd c2 @ snd (snd nested)
                 in case first_match re_compile data name of
                      Inl e \<Rightarrow> (None, rest', out' @ [''Invalid input.''])
                    | Inr b \<Rightarrow> (Some b, rest', out'))))"
  by pat_completeness auto
termination
proof (relation "measure (\<lambda>(re_compile, data, book_name, stdin).
        2 * length stdin + (if book_name = None \<or> book_name = Some [] then 0 else 1))",
       goal_cases)
  case 1
  show ?case by simp
next
  have shorter: "(Inr s, r, ou) = input_loop xs \<Longrightarrow> length r < length xs" for xs s r ou
    by (induction xs arbitrary: ou) (auto split: if_splits prod.splits)
  case 2
  then show ?case
    by (auto simp: ask_name_def split: option.splits if_splits dest: shorter)
qed

declare name_to_bookId.simps [simp del]

section \<open>The recommender's entry point\<close>

text \<open>
  The argument \<^verbatim>\<open>type\<close> is any Python value: \<^verbatim>\<open>None\<close>, a string, or another object,
  of which only the truth value matters.
\<close>

datatype py_value = PyNone | PyStr string | PyOther bool

fun truthy :: "py_value \<Rightarrow> bool" where
  "truthy PyNone = False"
| "truthy (PyStr s) = (s \<noteq> [])"
| "truthy (PyOther b) = b"

text \<open>The value bound to \<^verbatim>\<open>books\<close>: a list, or the set of combined mode.\<close>

datatype 'id books = BookList "'id list" | BookSet "'id set"

text \<open>
  \<^verbatim>\<open>recommend_books\<close> up to the call of \<^verbatim>\<open>print_book_details\<close>: the result is the
  collection handed to \<^verbatim>\<open>print_book_details\<close> for display, or the error raised before
  that call, together with the console output so far. With no branch taken, \<^verbatim>\<open>books\<close>
  is unbound when line 238 reads it. The display itself (network, images) is not modelled.

  The catalog is one read from a file: the label of a row is \<open>Some\<close> identifier, or
  \<open>None\<close> where the file gives the row no identifier. When the resolver returns
  \<^verbatim>\<open>None\<close>, that value is the lookup key; pandas takes the key \<^verbatim>\<open>None\<close> for the
  missing label, so it finds a row without identifier when there is one and raises
  \<^verbatim>\<open>KeyError\<close> when every row has its identifier.
\<close>

definition recommend_books ::
  "(string list \<Rightarrow> nat \<Rightarrow> 'v) \<Rightarrow> ('v \<Rightarrow> 'v \<Rightarrow> 's::linorder) \<Rightarrow> (string \<Rightarrow> (string \<Rightarrow> bool) option)
     \<Rightarrow> ('id option) catalog \<Rightarrow> string option \<Rightarrow> py_value \<Rightarrow> int \<Rightarrow> string list
     \<Rightarrow> (py_error + ('id option) books) \<times> string list" where
  "recommend_books fit_transform cosine re_compile data book_name type k stdin =
     (let resolved = name_to_bookId re_compile data book_name stdin;
          key = (case fst resolved of None \<Rightarrow> None | Some label \<Rightarrow> label);
          books =
            (if type = PyStr ''summary'' then
               map_sum id BookList (similar_summary fit_transform cosine data key k)
             else if type = PyStr ''genres'' then
               map_sum id BookList (similar_genre fit_transform cosine data key k)
             else if \<not> truthy type then
               (case similar_summary fit_transform cosine data key k of
                  Inl e \<Rightarrow> Inl e
                | Inr xs \<Rightarrow>
                    (case similar_genre fit_transform cosine data key k of
                       Inl e \<Rightarrow> Inl e
                     | Inr ys \<Rightarrow> Inr (BookSet (set (xs @ ys)))))
             else Inl UnboundLocalError)
      in (books, snd (snd resolved)))"

section \<open>The loader\<close>

text \<open>
  A row as \<^verbatim>\<open>read_csv\<close> parses it: a cell is \<open>None\<close> where pandas reads a missing
  value. \<^verbatim>\<open>bookId\<close> is the index column, the other seven are the data columns.
\<close>

record raw_row =
  raw_bookId :: "string option"
  raw_author :: "string option"
  raw_title :: "string option"
  raw_rating :: "real option"
  raw_description :: "string option"
  raw_isbn :: "string option"
  raw_genres :: "string option"
  raw_coverImg :: "string option"

text \<open>
  \<^verbatim>\<open>DataFrame.dropna()\<close> keeps a row when all of its column values are present. The
  index is not a column, so a missing index label does not remove the row: the kept
  row has the missing label \<open>None\<close> as its identifier.
\<close>

definition keep_row :: "raw_row \<Rightarrow> (string option) book option" where
  "keep_row r =
     (case (raw_author r, raw_title r, raw_rating r, raw_description r,
            raw_isbn r, raw_genres r, raw_coverImg r) of
        (Some a, Some t, Some x, Some d, Some i, Some g, Some c) \<Rightarrow>
          Some \<lparr>bookId = raw_bookId r, author = a, title = t, rating = x, description = d,
                isbn = i, genres = g, coverImg = c\<rparr>
      | _ \<Rightarrow> None)"

definition load :: "raw_row list \<Rightarrow> (string option) catalog" where
  "load rows = List.map_filter keep_row rows"

section \<open>Notions used to state the properties\<close>

text \<open>
  The identifiers of all books in ranking order for the query row \<open>loc\<close>: position 0
  is rank 1.
\<close>

definition ranked_ids ::
  "(string list \<Rightarrow> nat \<Rightarrow> 'v) \<Rightarrow> ('v \<Rightarrow> 'v \<Rightarrow> 's::linorder) \<Rightarrow> 'id catalog \<Rightarrow> nat \<Rightarrow> 'id list" where
  "ranked_ids fit_transform cosine data loc =
     map (\<lambda>p. bookId (data ! fst p)) (sorted_similar_books fit_transform cosine data loc)"

text \<open>
  The query row is the top-ranked entry: no earlier row scores at least as high as the
  query row scores against itself, and no later row scores higher.
\<close>

definition query_ranked_first ::
  "(string list \<Rightarrow> nat \<Rightarrow> 'v) \<Rightarrow> ('v \<Rightarrow> 'v \<Rightarrow> 's::linorder) \<Rightarrow> 'id catalog \<Rightarrow> nat \<Rightarrow> bool" where
  "query_ranked_first fit_transform cosine data loc =
     (let M = tfidf_matrix fit_transform data; score = (\<lambda>j. cosine (M ! loc) (M ! j))
      in list_all (\<lambda>j. (j < loc \<longrightarrow> score j < score loc) \<and> (loc < j \<longrightarrow> score j \<le> score loc))
           [0..<length data])"

subsection \<open>Sample data\<close>

text \<open>
  Stand-ins for the two library functions, used at concrete inputs only: the vector of a
  description is the description itself, and two vectors have similarity 1 when they are
  equal and 0 otherwise. Rows of equal description get equal scores under any
  vectoriser and any similarity.
\<close>

definition demo_fit_transform :: "string list \<Rightarrow> nat \<Rightarrow> string" where
  "demo_fit_transform corpus i = corpus ! i"

definition demo_cosine :: "string \<Rightarrow> string \<Rightarrow> real" where
  "demo_cosine x y = (if x = y then 1 else 0)"

text \<open>A catalog row with the given identifier, title and description.\<close>

definition mk_book :: "'id \<Rightarrow> string \<Rightarrow> string \<Rightarrow> 'id book" where
  "mk_book i t d =
     \<lparr>bookId = i, author = ''anon'', title = t, rating = 4, description = d,
      isbn = ''0'', genres = ''[]'', coverImg = ''http://img''\<rparr>"

definition shelf :: "string catalog" where
  "shelf = [mk_book ''b1'' ''Emma in Love'' ''village matchmaking'',
            mk_book ''b2'' ''Emily of New Moon'' ''orphan writer'',
            mk_book ''b3'' ''Emma'' ''village matchmaking'']"

text \<open>
  The same shelf as a catalog read from a file in which every row has its identifier.
\<close>

definition loaded_shelf :: "(string option) catalog" where
  "loaded_shelf = [mk_book (Some ''b1'') ''Emma in Love'' ''village matchmaking'',
                   mk_book (Some ''b2'') ''Emily of New Moon'' ''orphan writer'',
                   mk_book (Some ''b3'') ''Emma'' ''village matchmaking'']"

text \<open>Two editions with the same description.\<close>

definition twins :: "string catalog" where
  "twins = [mk_book ''t1'' ''Dune'' ''desert planet'',
            mk_book ''t2'' ''Dune (Illustrated)'' ''desert planet'']"

text \<open>All seven data columns of a parsed row are present.\<close>

definition columns_populated :: "raw_row \<Rightarrow> bool" where
  "columns_populated r =
     (raw_author r \<noteq> None \<and> raw_title r \<noteq> None \<and> raw_rating r \<noteq> None
      \<and> raw_description r \<noteq> None \<and> raw_isbn r \<noteq> None \<and> raw_genres r \<noteq> None
      \<and> raw_coverImg r \<noteq> None)"

text \<open>
  A fully populated row in the words of the specification: the identifier and the seven
  other fields are present.
\<close>

definition fully_populated :: "raw_row \<Rightarrow> bool" where
  "fully_populated r = (raw_bookId r \<noteq> None \<and> columns_populated r)"

text \<open>The catalog record \<open>b\<close> carries exactly the cells of the parsed row \<open>r\<close>.\<close>

definition of_row :: "raw_row \<Rightarrow> (string option) book \<Rightarrow> bool" where
  "of_row r b =
     (bookId b = raw_bookId r \<and> raw_author r = Some (author b) \<and> raw_title r = Some (title b)
      \<and> raw_rating r = Some (rating b) \<and> raw_description r = Some (description b)
      \<and> raw_isbn r = Some (isbn b) \<and> raw_genres r = Some (genres b)
      \<and> raw_coverImg r = Some (coverImg b))"

text \<open>Three parsed rows: one without identifier, one without description, one complete.\<close>

definition nameless :: raw_row where
  "nameless =
     \<lparr>raw_bookId = None, raw_author = Some ''anon'', raw_title = Some ''Untitled'',
      raw_rating = Some 3, raw_description = Some ''lost pages'', raw_isbn = Some ''1'',
      raw_genres = Some ''[]'', raw_coverImg = Some ''http://img''\<rparr>"

definition blank_description :: raw_row where
  "blank_description =
     \<lparr>raw_bookId = Some ''r2'', raw_author = Some ''anon'', raw_title = Some ''Blank'',
      raw_rating = Some 3, raw_description = None, raw_isbn = Some ''2'',
      raw_genres = Some ''[]'', raw_coverImg = Some ''http://img''\<rparr>"

definition complete_row :: raw_row where
  "complete_row =
     \<lparr>raw_bookId = Some ''r3'', raw_author = Some ''anon'', raw_title = Some ''Whole'',
      raw_rating = Some 5, raw_description = Some ''all there'', raw_isbn = Some ''3'',
      raw_genres = Some ''[]'', raw_coverImg = Some ''http://img''\<rparr>"

section \<open>Properties of the ranking\<close>

lemma get_loc_absent: "b \<notin> set ids \<Longrightarrow> get_loc ids b = Inl KeyError"
  by (induction ids) auto

lemma get_loc_error: "get_loc ids key = Inl e \<Longrightarrow> e = KeyError"
  by (induction ids arbitrary: e) (auto split: if_splits sum.splits)

lemma get_loc_present:
  "b \<in> set ids \<Longrightarrow> \<exists>loc. get_loc ids b = Inr loc \<and> loc < length ids \<and> ids ! loc = b"
  by (induction ids) auto

lemma get_loc_Inr:
  "get_loc ids key = Inr loc \<Longrightarrow> loc < length ids \<and> key = ids ! loc"
  by (induction ids arbitrary: loc) (auto split: if_splits sum.splits)

text \<open>
  \<open>sorted_reverse\<close> returns the descending, stable arrangement of its input: a
  permutation, sorted by decreasing score, with pairs of equal score in input order.
\<close>

lemma mset_insort_desc: "mset (insort_desc x ys) = add_mset x (mset ys)"
  by (induction ys) auto

lemma mset_sorted_reverse: "mset (sorted_reverse xs) = mset xs"
  by (induction xs) (auto simp: sorted_reverse_def mset_insort_desc)

lemma set_sorted_reverse: "set (sorted_reverse xs) = set xs"
  using mset_sorted_reverse [of xs] by (metis set_mset_mset)

lemma length_sorted_reverse: "length (sorted_reverse xs) = length xs"
  using mset_sorted_reverse [of xs] by (metis size_mset)

lemma sorted_insort_desc:
  "sorted_wrt (\<lambda>a b. snd b \<le> snd a) ys \<Longrightarrow> sorted_wrt (\<lambda>a b. snd b \<le> snd a) (insort_desc x ys)"
  by (induction ys) (auto simp: mset_insort_desc dest!: arg_cong [where f = set_mset] simp flip: set_mset_mset)

lemma sorted_sorted_reverse: "sorted_wrt (\<lambda>a b. snd b \<le> snd a) (sorted_reverse xs)"
proof (induction xs)
  case Nil
  show ?case by (simp add: sorted_reverse_def)
next
  case (Cons x xs)
  then show ?case using sorted_insort_desc [of "sorted_reverse xs" x]
    by (simp add: sorted_reverse_def)
qed

lemma filter_insort_desc:
  "sorted_wrt (\<lambda>a b. snd b \<le> snd a) ys \<Longrightarrow>
   filter (\<lambda>p. snd p = v) (insort_desc x ys) = filter (\<lambda>p. snd p = v) (x # ys)"
proof (induction ys)
  case Nil
  show ?case by simp
next
  case (Cons y ys)
  show ?case
  proof (cases "snd y \<le> snd x")
    case True
    then show ?thesis by simp
  next
    case False
    have "filter (\<lambda>p. snd p = v) (insort_desc x ys) = filter (\<lambda>p. snd p = v) (x # ys)"
      using Cons by simp
    moreover have "snd x = v \<Longrightarrow> snd y \<noteq> v" using False by auto
    ultimately show ?thesis using False by auto
  qed
qed

lemma sorted_reverse_stable:
  "filter (\<lambda>p. snd p = v) (sorted_reverse xs) = filter (\<lambda>p. snd p = v) xs"
proof (induction xs)
  case Nil
  show ?case by (simp add: sorted_reverse_def)
next
  case (Cons x xs)
  have "filter (\<lambda>p. snd p = v) (sorted_reverse (x # xs))
        = filter (\<lambda>p. snd p = v) (x # sorted_reverse xs)"
    using filter_insort_desc [OF sorted_sorted_reverse, of v x xs]
    by (simp add: sorted_reverse_def)
  then show ?case using Cons by simp
qed

lemma length_ssb: "length (sorted_similar_books ft cs data loc) = length data"
  by (simp add: sorted_similar_books_def Let_def tfidf_matrix_def cosine_similarity_def
      length_sorted_reverse)

lemma map_fst_ssb_mset:
  "mset (map fst (sorted_similar_books ft cs data loc)) = mset [0..<length data]"
proof -
  define S where "S = cosine_similarity cs (tfidf_matrix ft data ! loc) (tfidf_matrix ft data)"
  have e: "map fst (enumerate 0 S) = [0..<length data]"
    by (simp add: S_def tfidf_matrix_def cosine_similarity_def)
  have "mset (sorted_similar_books ft cs data loc) = mset (enumerate 0 S)"
    by (simp add: S_def sorted_similar_books_def Let_def mset_sorted_reverse)
  then have "image_mset fst (mset (sorted_similar_books ft cs data loc))
             = image_mset fst (mset (enumerate 0 S))"
    by (rule arg_cong)
  then have "mset (map fst (sorted_similar_books ft cs data loc)) = mset (map fst (enumerate 0 S))"
    by (simp only: mset_map)
  then show ?thesis by (simp only: e)
qed

lemma fst_ssb_bound:
  "p \<in> set (sorted_similar_books ft cs data loc) \<Longrightarrow> fst p < length data"
proof -
  assume "p \<in> set (sorted_similar_books ft cs data loc)"
  then have "fst p \<in> set (map fst (sorted_similar_books ft cs data loc))" by simp
  then have "fst p \<in> set_mset (mset (map fst (sorted_similar_books ft cs data loc)))"
    by (simp only: set_mset_mset)
  then show ?thesis by (simp only: map_fst_ssb_mset) simp
qed

lemma distinct_fst_ssb: "distinct (map fst (sorted_similar_books ft cs data loc))"
  using map_fst_ssb_mset [of ft cs data loc] by (metis distinct_upt mset_eq_imp_distinct_iff)

lemma sorted_similar_books_desc:
  "sorted_wrt (\<lambda>a b. snd b \<le> snd a) (sorted_similar_books ft cs data loc)"
  by (simp add: sorted_similar_books_def Let_def sorted_sorted_reverse)

lemma sorted_similar_books_scores:
  assumes "p \<in> set (sorted_similar_books ft cs data loc)"
  shows "snd p = cs (tfidf_matrix ft data ! loc) (tfidf_matrix ft data ! fst p)"
proof -
  define M where "M = tfidf_matrix ft data"
  have "p \<in> set (enumerate 0 (cosine_similarity cs (M ! loc) M))"
    using assms by (simp add: sorted_similar_books_def Let_def M_def set_sorted_reverse)
  then have "fst p < length M" "snd p = map (cs (M ! loc)) M ! fst p"
    by (auto simp: in_set_enumerate_eq cosine_similarity_def)
  then show ?thesis by (simp add: M_def)
qed

lemma collect_error: "collect data ssb is acc = Inl e \<Longrightarrow> e = IndexError"
  by (induction "is" arbitrary: acc)
     (auto simp: py_index_def iloc_def split: sum.splits if_splits)

lemma collect_Inr_bound:
  "collect data ssb is acc = Inr r \<Longrightarrow> i \<in> set is \<Longrightarrow> i < int (length ssb)"
  by (induction "is" arbitrary: acc)
     (auto simp: py_index_def iloc_def split: sum.splits if_splits)

lemma collect_ok:
  "\<forall>i\<in>set is. 0 \<le> i \<and> i < int (length ssb) \<Longrightarrow> \<forall>p\<in>set ssb. fst p < length data \<Longrightarrow>
   collect data ssb is acc = Inr (acc @ map (\<lambda>i. bookId (data ! fst (ssb ! nat i))) is)"
  by (induction "is" arbitrary: acc) (auto simp: py_index_def iloc_def)

lemma map_py_range:
  assumes "0 \<le> a" and "b \<le> int (length xs)"
  shows "map (\<lambda>i. f (xs ! nat i)) (py_range a b) = map f (take (nat (b - a)) (drop (nat a) xs))"
proof (rule nth_equalityI)
  show "length (map (\<lambda>i. f (xs ! nat i)) (py_range a b))
        = length (map f (take (nat (b - a)) (drop (nat a) xs)))"
    using assms by (auto simp: py_range_def)
next
  fix j assume "j < length (map (\<lambda>i. f (xs ! nat i)) (py_range a b))"
  then have j: "j < nat (b - a)" by (simp add: py_range_def)
  then have "[a..b - 1] ! j = a + int j" by (intro nth_upto) linarith
  moreover have "nat (a + int j) = nat a + j" using assms by linarith
  moreover have "nat a + j < length xs" using assms j by linarith
  ultimately show "map (\<lambda>i. f (xs ! nat i)) (py_range a b) ! j
                   = map f (take (nat (b - a)) (drop (nat a) xs)) ! j"
    using j assms by (simp add: py_range_def)
qed

lemma collect_slice:
  assumes "0 \<le> a" and "b \<le> int (length data)"
  shows "collect data (sorted_similar_books ft cs data loc) (py_range a b) []
         = Inr (take (nat (b - a)) (drop (nat a) (ranked_ids ft cs data loc)))"
proof -
  let ?ssb = "sorted_similar_books ft cs data loc"
  have "\<forall>i\<in>set (py_range a b). 0 \<le> i \<and> i < int (length ?ssb)"
    using assms by (auto simp: py_range_def length_ssb)
  moreover have "\<forall>p\<in>set ?ssb. fst p < length data"
    using fst_ssb_bound by blast
  ultimately have "collect data ?ssb (py_range a b) []
      = Inr ([] @ map (\<lambda>i. bookId (data ! fst (?ssb ! nat i))) (py_range a b))"
    by (rule collect_ok)
  moreover have "map (\<lambda>i. bookId (data ! fst (?ssb ! nat i))) (py_range a b)
      = map (\<lambda>p. bookId (data ! fst p)) (take (nat (b - a)) (drop (nat a) ?ssb))"
    using assms by (intro map_py_range) (simp_all add: length_ssb)
  ultimately show ?thesis
    by (simp add: ranked_ids_def take_map drop_map)
qed

lemma collect_overrun:
  assumes "i \<in> set (py_range a b)" and "int (length data) \<le> i"
  shows "collect data (sorted_similar_books ft cs data loc) (py_range a b) [] = Inl IndexError"
proof (cases "collect data (sorted_similar_books ft cs data loc) (py_range a b) []")
  case (Inl e)
  then show ?thesis using collect_error by fastforce
next
  case (Inr r)
  from collect_Inr_bound [OF Inr assms(1)] show ?thesis using assms(2) by (simp add: length_ssb)
qed

lemma hd_insort_desc:
  "hd (insort_desc x ys) = (if ys = [] \<or> snd (hd ys) \<le> snd x then x else hd ys)"
  by (cases ys) auto

lemma sorted_reverse_Nil_iff: "sorted_reverse xs = [] \<longleftrightarrow> xs = []"
  using length_sorted_reverse [of xs] by (metis length_0_conv)

lemma hd_sorted_reverse:
  "i < length ps \<Longrightarrow> \<forall>j<i. snd (ps ! j) < snd (ps ! i) \<Longrightarrow>
   \<forall>j<length ps. i < j \<longrightarrow> snd (ps ! j) \<le> snd (ps ! i) \<Longrightarrow>
   hd (sorted_reverse ps) = ps ! i"
proof (induction ps arbitrary: i)
  case Nil
  then show ?case by simp
next
  case (Cons q qs)
  have unfold: "sorted_reverse (q # qs) = insort_desc q (sorted_reverse qs)"
    by (simp add: sorted_reverse_def)
  show ?case
  proof (cases i)
    case 0
    have "sorted_reverse qs = [] \<or> snd (hd (sorted_reverse qs)) \<le> snd q"
    proof (cases "qs = []")
      case True
      then show ?thesis by (simp add: sorted_reverse_def)
    next
      case False
      then have "sorted_reverse qs \<noteq> []" by (simp add: sorted_reverse_Nil_iff)
      then have "hd (sorted_reverse qs) \<in> set qs"
        using set_sorted_reverse [of qs] hd_in_set by blast
      then obtain j where "j < length qs" "qs ! j = hd (sorted_reverse qs)"
        by (auto simp: in_set_conv_nth)
      then show ?thesis using Cons.prems(3) [rule_format, of "Suc j"] 0 by auto
    qed
    then show ?thesis using 0 unfold by (simp add: hd_insort_desc)
  next
    case (Suc i')
    have "i' < length qs" using Cons.prems(1) Suc by simp
    moreover have "\<forall>j<i'. snd (qs ! j) < snd (qs ! i')"
      using Cons.prems(2) Suc by (metis Suc_less_eq nth_Cons_Suc)
    moreover have "\<forall>j<length qs. i' < j \<longrightarrow> snd (qs ! j) \<le> snd (qs ! i')"
      using Cons.prems(3) Suc by (metis Suc_less_eq length_Cons nth_Cons_Suc)
    ultimately have ih: "hd (sorted_reverse qs) = qs ! i'" by (rule Cons.IH)
    have "snd q < snd (qs ! i')" using Cons.prems(2) [rule_format, of 0] Suc by simp
    moreover have "sorted_reverse qs \<noteq> []"
      using \<open>i' < length qs\<close> by (auto simp: sorted_reverse_Nil_iff)
    ultimately show ?thesis using ih unfold Suc by (auto simp: hd_insort_desc)
  qed
qed

lemma hd_ssb:
  assumes "loc < length data" and "query_ranked_first ft cs data loc"
  shows "fst (hd (sorted_similar_books ft cs data loc)) = loc"
proof -
  define M where "M = tfidf_matrix ft data"
  define ps where "ps = enumerate 0 (cosine_similarity cs (M ! loc) M)"
  have len: "length ps = length data"
    by (simp add: ps_def M_def tfidf_matrix_def cosine_similarity_def)
  have nth: "ps ! j = (j, cs (M ! loc) (M ! j))" if "j < length data" for j
    using that by (simp add: ps_def M_def tfidf_matrix_def cosine_similarity_def nth_enumerate_eq)
  have q: "\<forall>j<length data. (j < loc \<longrightarrow> cs (M ! loc) (M ! j) < cs (M ! loc) (M ! loc))
            \<and> (loc < j \<longrightarrow> cs (M ! loc) (M ! j) \<le> cs (M ! loc) (M ! loc))"
    using assms(2) by (simp add: query_ranked_first_def Let_def M_def list_all_iff)
  have "hd (sorted_reverse ps) = ps ! loc"
  proof (rule hd_sorted_reverse)
    show "loc < length ps" using assms(1) len by simp
    show "\<forall>j<loc. snd (ps ! j) < snd (ps ! loc)"
      using q assms(1) nth by auto
    show "\<forall>j<length ps. loc < j \<longrightarrow> snd (ps ! j) \<le> snd (ps ! loc)"
      using q assms(1) nth len by auto
  qed
  then show ?thesis
    using nth [OF assms(1)] by (simp add: sorted_similar_books_def Let_def ps_def M_def)
qed

lemma query_not_in_tail:
  assumes "loc < length data" and "distinct (map bookId data)"
    and "fst (hd (sorted_similar_books ft cs data loc)) = loc"
  shows "bookId (data ! loc) \<notin> set (drop 1 (ranked_ids ft cs data loc))"
proof
  let ?ssb = "sorted_similar_books ft cs data loc"
  assume "bookId (data ! loc) \<in> set (drop 1 (ranked_ids ft cs data loc))"
  then obtain p where p: "p \<in> set (drop 1 ?ssb)" "bookId (data ! fst p) = bookId (data ! loc)"
    by (auto simp: ranked_ids_def drop_map)
  have ne: "?ssb \<noteq> []" using assms(1) length_ssb [of ft cs data loc] by auto
  then have split: "?ssb = hd ?ssb # drop 1 ?ssb" by (cases ?ssb) auto
  have "distinct (map fst (hd ?ssb # drop 1 ?ssb))"
    using distinct_fst_ssb [of ft cs data loc] split by simp
  then have "fst (hd ?ssb) \<notin> fst ` set (drop 1 ?ssb)" by simp
  then have "fst p \<noteq> fst (hd ?ssb)" using p(1) by (metis imageI)
  moreover have "fst p < length data"
    using p(1) fst_ssb_bound [of p ft cs data loc] by (meson in_set_dropD)
  ultimately show False
    using p(2) assms by (simp add: distinct_conv_nth)
qed

lemma ssb_shelf0:
  "sorted_similar_books demo_fit_transform demo_cosine shelf 0 = [(0, 1), (2, 1), (1, 0)]"
  by (simp add: sorted_similar_books_def tfidf_matrix_def cosine_similarity_def sorted_reverse_def
      demo_fit_transform_def demo_cosine_def shelf_def mk_book_def upt_rec enumerate_eq_zip)

text \<open>
  Claim C1, as amended. For a \<open>bookId\<close> of the catalog (found at position \<open>loc\<close>) and a
  catalog of at least \<open>k + 1\<close> rows, \<^verbatim>\<open>similar_summary\<close> returns exactly \<open>k\<close>
  identifiers, those ranked 2nd to \<open>(k+1)\<close>th in the stable descending ranking by
  cosine similarity to the query row. The query's own identifier is absent from the
  result when identifiers are unique and the query row is the top-ranked entry, that is
  when no earlier row scores at least as high as the query scores against itself and no
  later row scores higher.
\<close>

theorem similar_summary_ranks:
  assumes "get_loc (map bookId data) b = Inr loc"
    and "k + 1 \<le> int (length data)"
  shows "similar_summary ft cs data b k
           = Inr (take (nat k) (drop 1 (ranked_ids ft cs data loc)))
         \<and> length (take (nat k) (drop 1 (ranked_ids ft cs data loc))) = nat k
         \<and> (distinct (map bookId data) \<and> query_ranked_first ft cs data loc
              \<longrightarrow> b \<notin> set (take (nat k) (drop 1 (ranked_ids ft cs data loc))))"
proof (intro conjI impI)
  have "collect data (sorted_similar_books ft cs data loc) (py_range 1 (k + 1)) []
        = Inr (take (nat (k + 1 - 1)) (drop (nat 1) (ranked_ids ft cs data loc)))"
    using assms(2) by (intro collect_slice) simp_all
  then show "similar_summary ft cs data b k
             = Inr (take (nat k) (drop 1 (ranked_ids ft cs data loc)))"
    using assms(1) by (simp add: similar_summary_def)
next
  have "length (ranked_ids ft cs data loc) = length data"
    by (simp add: ranked_ids_def length_ssb)
  then show "length (take (nat k) (drop 1 (ranked_ids ft cs data loc))) = nat k"
    using assms(2) by simp
next
  assume h: "distinct (map bookId data) \<and> query_ranked_first ft cs data loc"
  have loc: "loc < length data" "b = bookId (data ! loc)"
    using get_loc_Inr [OF assms(1)] by simp_all
  have "fst (hd (sorted_similar_books ft cs data loc)) = loc"
    using hd_ssb loc(1) h by blast
  then have "bookId (data ! loc) \<notin> set (drop 1 (ranked_ids ft cs data loc))"
    using query_not_in_tail loc(1) h by blast
  then show "b \<notin> set (take (nat k) (drop 1 (ranked_ids ft cs data loc)))"
    using loc(2) by (meson in_set_takeD)
qed

theorem similar_summary_ranks_witness:
  "similar_summary demo_fit_transform demo_cosine shelf ''b1'' 2 = Inr [''b3'', ''b2'']
   \<and> ''b1'' \<notin> set [''b3'', ''b2'']"
proof -
  have loc: "get_loc (map bookId shelf) ''b1'' = Inr 0"
    by (simp add: shelf_def mk_book_def)
  have size: "(2::int) + 1 \<le> int (length shelf)" by (simp add: shelf_def)
  have ids: "distinct (map bookId shelf)" by (simp add: shelf_def mk_book_def)
  have top: "query_ranked_first demo_fit_transform demo_cosine shelf 0"
    by (simp add: query_ranked_first_def tfidf_matrix_def demo_fit_transform_def demo_cosine_def
        shelf_def mk_book_def upt_rec)
  have r: "take (nat 2) (drop 1 (ranked_ids demo_fit_transform demo_cosine shelf 0)) = [''b3'', ''b2'']"
    by (simp add: ranked_ids_def ssb_shelf0) (simp add: shelf_def mk_book_def)
  show ?thesis
    using similar_summary_ranks [OF loc size, of demo_fit_transform demo_cosine] ids top
    by (simp only: r) simp
qed

text \<open>
  Claim C1 as stated fails: of two books with the same description the second is
  ranked second for itself, so it is returned as its own recommendation.
\<close>

theorem similar_summary_returns_query_counterexample:
  "get_loc (map bookId twins) ''t2'' = Inr 1 \<and> (1::int) + 1 \<le> int (length twins)
   \<and> similar_summary demo_fit_transform demo_cosine twins ''t2'' 1 = Inr [''t2'']"
  by (simp add: similar_summary_def sorted_similar_books_def tfidf_matrix_def cosine_similarity_def
      sorted_reverse_def demo_fit_transform_def demo_cosine_def twins_def mk_book_def upt_rec
      enumerate_eq_zip py_range_def upto.simps py_index_def iloc_def)

lemma similar_slices:
  assumes "get_loc (map bookId data) b = Inr loc"
    and "2 * k + 1 \<le> int (length data)"
  shows "similar_genre ft cs data b k
           = Inr (take (nat k) (drop (nat k + 1) (ranked_ids ft cs data loc)))
         \<and> similar_summary ft cs data b k
           = Inr (take (nat k) (drop 1 (ranked_ids ft cs data loc)))
         \<and> similar_summary ft cs data b (2 * k)
           = Inr (take (nat k) (drop 1 (ranked_ids ft cs data loc))
                  @ take (nat k) (drop (nat k + 1) (ranked_ids ft cs data loc)))"
proof (cases "0 \<le> k")
  case True
  let ?r = "ranked_ids ft cs data loc"
  let ?ssb = "sorted_similar_books ft cs data loc"
  have "collect data ?ssb (py_range (k + 1) (2 * k + 1)) []
        = Inr (take (nat (2 * k + 1 - (k + 1))) (drop (nat (k + 1)) ?r))"
    using assms(2) True by (intro collect_slice) simp_all
  moreover have "nat (2 * k + 1 - (k + 1)) = nat k" by simp
  moreover have "nat (k + 1) = nat k + 1" using True by simp
  ultimately have g: "similar_genre ft cs data b k = Inr (take (nat k) (drop (nat k + 1) ?r))"
    using assms(1) by (simp add: similar_genre_def)
  have "collect data ?ssb (py_range 1 (k + 1)) [] = Inr (take (nat (k + 1 - 1)) (drop (nat 1) ?r))"
    using assms(2) True by (intro collect_slice) simp_all
  then have s1: "similar_summary ft cs data b k = Inr (take (nat k) (drop 1 ?r))"
    using assms(1) by (simp add: similar_summary_def)
  have "collect data ?ssb (py_range 1 (2 * k + 1)) []
        = Inr (take (nat (2 * k + 1 - 1)) (drop (nat 1) ?r))"
    using assms(2) True by (intro collect_slice) simp_all
  moreover have "nat (2 * k + 1 - 1) = nat k + nat k" using True by simp
  ultimately have "similar_summary ft cs data b (2 * k)
                   = Inr (take (nat k + nat k) (drop 1 ?r))"
    using assms(1) by (simp add: similar_summary_def)
  moreover have "take (nat k + nat k) (drop 1 ?r)
                 = take (nat k) (drop 1 ?r) @ take (nat k) (drop (nat k + 1) ?r)"
    by (simp add: take_add)
  ultimately show ?thesis using g s1 by simp
next
  case False
  then have "py_range (k + 1) (2 * k + 1) = []" "py_range 1 (k + 1) = []"
    "py_range 1 (2 * k + 1) = []" "nat k = 0"
    by (simp_all add: py_range_def)
  then show ?thesis
    using assms(1) by (simp add: similar_genre_def similar_summary_def)
qed

text \<open>
  Claim C2. For a \<open>bookId\<close> of the catalog and a catalog of at least \<open>2k + 1\<close> rows,
  \<^verbatim>\<open>similar_genre\<close> returns ranks \<open>(k+2)\<close>th to \<open>(2k+1)\<close>th of the very ranking that
  \<^verbatim>\<open>similar_summary\<close> uses (built from the description column only), and
  \<^verbatim>\<open>similar_summary(bookId, 2k)\<close> is \<^verbatim>\<open>similar_summary(bookId, k)\<close> followed by
  \<^verbatim>\<open>similar_genre(bookId, k)\<close>.
\<close>

theorem similar_genre_next_slice:
  assumes "get_loc (map bookId data) b = Inr loc"
    and "2 * k + 1 \<le> int (length data)"
  shows "similar_genre ft cs data b k
           = Inr (take (nat k) (drop (nat k + 1) (ranked_ids ft cs data loc)))
         \<and> similar_summary ft cs data b k
           = Inr (take (nat k) (drop 1 (ranked_ids ft cs data loc)))
         \<and> similar_summary ft cs data b (2 * k)
           = Inr (take (nat k) (drop 1 (ranked_ids ft cs data loc))
                  @ take (nat k) (drop (nat k + 1) (ranked_ids ft cs data loc)))"
  using assms by (rule similar_slices)

theorem similar_genre_next_slice_witness:
  "similar_genre demo_fit_transform demo_cosine shelf ''b1'' 1 = Inr [''b2'']
   \<and> similar_summary demo_fit_transform demo_cosine shelf ''b1'' 1 = Inr [''b3'']
   \<and> similar_summary demo_fit_transform demo_cosine shelf ''b1'' (2 * 1) = Inr [''b3'', ''b2'']"
proof -
  have loc: "get_loc (map bookId shelf) ''b1'' = Inr 0"
    by (simp add: shelf_def mk_book_def)
  have size: "2 * (1::int) + 1 \<le> int (length shelf)" by (simp add: shelf_def)
  have r: "ranked_ids demo_fit_transform demo_cosine shelf 0 = [''b1'', ''b3'', ''b2'']"
    by (simp add: ranked_ids_def ssb_shelf0) (simp add: shelf_def mk_book_def)
  show ?thesis
    using similar_genre_next_slice [OF loc size, of demo_fit_transform demo_cosine]
    by (simp only: r) simp
qed

text \<open>
  Claim C10. For a \<open>bookId\<close> of the catalog, \<^verbatim>\<open>similar_summary\<close> raises
  \<^verbatim>\<open>IndexError\<close> when the catalog has fewer than \<open>k + 1\<close> rows, and
  \<^verbatim>\<open>similar_genre\<close> raises it when the catalog has fewer than \<open>2k + 1\<close> rows: neither
  returns a shortened list.
\<close>

theorem similar_out_of_bounds:
  assumes "get_loc (map bookId data) b = Inr loc"
  shows "(int (length data) < k + 1
            \<longrightarrow> similar_summary ft cs data b k = Inl IndexError)
         \<and> (int (length data) < 2 * k + 1
            \<longrightarrow> similar_genre ft cs data b k = Inl IndexError)"
proof (intro conjI impI)
  have n: "1 \<le> int (length data)" using get_loc_Inr [OF assms] by auto
  {
    assume "int (length data) < k + 1"
    then have "int (length data) \<in> set (py_range 1 (k + 1))"
      using n by (simp add: py_range_def)
    then have "collect data (sorted_similar_books ft cs data loc) (py_range 1 (k + 1)) []
               = Inl IndexError"
      by (rule collect_overrun) simp
    then show "similar_summary ft cs data b k = Inl IndexError"
      using assms by (simp add: similar_summary_def)
  }
  {
    assume "int (length data) < 2 * k + 1"
    then have "max (int (length data)) (k + 1) \<in> set (py_range (k + 1) (2 * k + 1))"
      using n by (auto simp: py_range_def)
    then have "collect data (sorted_similar_books ft cs data loc) (py_range (k + 1) (2 * k + 1)) []
               = Inl IndexError"
      by (rule collect_overrun) simp
    then show "similar_genre ft cs data b k = Inl IndexError"
      using assms by (simp add: similar_genre_def)
  }
qed

theorem similar_out_of_bounds_witness:
  "similar_summary demo_fit_transform demo_cosine shelf ''b1'' 3 = Inl IndexError
   \<and> similar_genre demo_fit_transform demo_cosine shelf ''b1'' 3 = Inl IndexError"
proof -
  have loc: "get_loc (map bookId shelf) ''b1'' = Inr 0"
    by (simp add: shelf_def mk_book_def)
  have size: "int (length shelf) < 3 + 1" "int (length shelf) < 2 * 3 + 1"
    by (simp_all add: shelf_def)
  show ?thesis
    using similar_out_of_bounds [OF loc, of 3 demo_fit_transform demo_cosine] size by simp
qed

section \<open>Properties of title resolution\<close>

lemma lower_char_idem: "lower_char (lower_char c) = lower_char c"
  by (simp add: lower_char_def)

lemma lower_idem: "lower (lower s) = lower s"
  by (simp add: lower_def lower_char_idem)

lemma get_possible_books_lower: "get_possible_books data (lower q) = get_possible_books data q"
  by (simp add: get_possible_books_def lower_idem)

lemma exact_is_possible:
  assumes "row \<in> set data" and "lower q = lower (title row)"
  shows "title row \<in> set (get_possible_books data q)"
  using assms by (auto simp: get_possible_books_def)

lemma correct_name_Zero:
  assumes "get_possible_books data q = []"
  shows "correct_name data q = (Zero, [''Book not found!''])"
proof -
  have "q \<notin> set (map (\<lambda>row. lower (title row)) data)"
  proof
    assume "q \<in> set (map (\<lambda>row. lower (title row)) data)"
    then obtain row where row: "row \<in> set data" "q = lower (title row)" by auto
    then have "lower q = lower (title row)" by (simp add: lower_idem)
    from exact_is_possible [OF row(1) this] show False using assms by simp
  qed
  then show ?thesis using assms by (simp add: correct_name_def)
qed

lemma name_to_bookId_empty_catalog: "fst (name_to_bookId re [] book_name stdin) = None"
proof (cases "ask_name book_name stdin")
  case (fields r rest out)
  show ?thesis
  proof (cases r)
    case (Inl e)
    then show ?thesis using fields by (simp add: name_to_bookId.simps [of re "[]" book_name stdin])
  next
    case (Inr typed)
    have "correct_name ([] :: 'a catalog) (lower typed) = (Zero, [''Book not found!''])"
      by (rule correct_name_Zero) (simp add: get_possible_books_def)
    then show ?thesis using fields Inr
      by (simp add: name_to_bookId.simps [of re "[]" book_name stdin])
  qed
qed

lemma name_to_bookId_not_found:
  assumes "get_possible_books data q = []" and "q \<noteq> []"
  shows "name_to_bookId re data (Some q) stdin = (None, stdin, [lower q, ''Book not found!''])"
proof -
  have "correct_name data (lower q) = (Zero, [''Book not found!''])"
    using assms(1) by (intro correct_name_Zero) (simp add: get_possible_books_lower)
  then show ?thesis using assms(2)
    by (simp add: name_to_bookId.simps [of re data "Some q" stdin] ask_name_def)
qed

text \<open>
  Claim C7. A query whose case-insensitive substring search matches no title (it then
  has no exact match either) gets the not-found outcome: \<^verbatim>\<open>correct_name\<close> returns 0
  and \<^verbatim>\<open>name_to_bookId\<close> returns \<^verbatim>\<open>None\<close>, whatever is on standard input.
\<close>

theorem not_found_outcome:
  assumes "get_possible_books data q = []"
  shows "fst (correct_name data q) = Zero \<and> fst (name_to_bookId re data (Some q) stdin) = None"
proof (cases "q = []")
  case True
  then have "data = []" using assms by (simp add: get_possible_books_def lower_def)
  then show ?thesis using correct_name_Zero [OF assms] name_to_bookId_empty_catalog by simp
next
  case False
  then show ?thesis
    using correct_name_Zero [OF assms] name_to_bookId_not_found [OF assms False] by simp
qed

theorem not_found_outcome_witness:
  "fst (correct_name shelf ''zzz'') = Zero
   \<and> fst (name_to_bookId (\<lambda>pat. None) shelf (Some ''zzz'') []) = (None :: string option)"
proof -
  have "get_possible_books shelf ''zzz'' = []"
    by (simp add: get_possible_books_def shelf_def mk_book_def lower_def lower_char_def
      sublist_Cons_right)
  from not_found_outcome [OF this] show ?thesis by simp
qed

lemma first_match_member: "first_match re data name = Inr b \<Longrightarrow> b \<in> bookId ` set data"
proof -
  assume h: "first_match re data name = Inr b"
  then obtain matches row rows where "filter (\<lambda>row. matches (title row)) data = row # rows"
    and "b = bookId row"
    by (auto simp: first_match_def split: option.splits list.splits)
  then have "row \<in> set (filter (\<lambda>row. matches (title row)) data)" by simp
  then show ?thesis using \<open>b = bookId row\<close> by auto
qed

lemma name_to_bookId_member:
  assumes "fst (name_to_bookId re data book_name stdin) = Some b"
  shows "b \<in> bookId ` set data"
proof (cases "ask_name book_name stdin")
  case (fields r rest out)
  show ?thesis
  proof (cases r)
    case (Inl e)
    then show ?thesis using fields assms
      by (simp add: name_to_bookId.simps [of re data book_name stdin])
  next
    case (Inr typed)
    then have "first_match re data (lower typed) = Inr b"
      using fields assms
      by (simp add: name_to_bookId.simps [of re data book_name stdin] Let_def
          split: if_splits sum.splits)
    then show ?thesis by (rule first_match_member)
  qed
qed

lemma shelf_titles:
  "map (\<lambda>row. (bookId row, title row)) shelf
   = [(''b1'', ''Emma in Love''), (''b2'', ''Emily of New Moon''), (''b3'', ''Emma'')]"
  by (simp add: shelf_def mk_book_def)

lemma correct_name_shelf_emma: "correct_name shelf ''emma'' = (NoResult, [])"
  by (simp add: correct_name_def shelf_def mk_book_def lower_def lower_char_def)

lemma first_match_shelf_emma: "first_match re shelf ''emma'' = Inr ''b1''"
  by (simp add: first_match_def str_contains_def is_literal_def shelf_def mk_book_def
      lower_def lower_char_def sublist_Cons_right)

lemma correct_name_shelf_em:
  "correct_name shelf ''em''
   = (One, [''Book not found!'', ''Did you mean: '', ''Emma in Love'', ''Emily of New Moon'',
            ''Emma''])"
  by (simp add: correct_name_def get_possible_books_def shelf_def mk_book_def lower_def
      lower_char_def sublist_Cons_right)

lemma first_match_shelf_em: "first_match re shelf ''em'' = Inr ''b1''"
  by (simp add: first_match_def str_contains_def is_literal_def shelf_def mk_book_def
      lower_def lower_char_def sublist_Cons_right)

lemma correct_name_shelf_emily:
  "correct_name shelf ''emily'' = (Title ''Emily of New Moon'', [])"
  by (simp add: correct_name_def get_possible_books_def shelf_def mk_book_def lower_def
      lower_char_def sublist_Cons_right)

lemma first_match_shelf_emily: "first_match re shelf ''emily'' = Inr ''b2''"
  by (simp add: first_match_def str_contains_def is_literal_def shelf_def mk_book_def
      lower_def lower_char_def sublist_Cons_right)

lemma reprompt_emily:
  "name_to_bookId re shelf None [''Emily''] = (Some ''b2'', [], [''Book: '', ''emily''])"
  by (subst name_to_bookId.simps)
     (simp add: ask_name_def correct_name_shelf_emily first_match_shelf_emily lower_def
      lower_char_def)

lemma resolve_emma:
  "name_to_bookId re shelf (Some ''Emma'') stdin = (Some ''b1'', stdin, [''emma''])"
proof -
  have "lower ''Emma'' = ''emma''" by (simp add: lower_def lower_char_def)
  then show ?thesis
    by (subst name_to_bookId.simps)
       (simp add: ask_name_def correct_name_shelf_emma first_match_shelf_emma)
qed

text \<open>
  Claim C3 at a failing input. The query \<^verbatim>\<open>Emma\<close> equals the title of book \<open>b3\<close>, but
  the lookup of line 128 takes the first row whose title contains the query, which is
  \<open>b1\<close>, titled \<^verbatim>\<open>Emma in Love\<close>.
\<close>

theorem exact_title_resolves_to_other_book:
  "name_to_bookId re shelf (Some ''Emma'') stdin = (Some ''b1'', stdin, [''emma''])
   \<and> map (\<lambda>row. (bookId row, title row)) shelf
     = [(''b1'', ''Emma in Love''), (''b2'', ''Emily of New Moon''), (''b3'', ''Emma'')]"
  using resolve_emma [of re stdin] shelf_titles by simp

text \<open>
  Claim C4 at a failing input. The query \<^verbatim>\<open>em\<close> matches three titles and no title
  exactly. The candidates are printed and the user is asked again, but the answer
  (\<^verbatim>\<open>Emily\<close>, which resolves to \<open>b2\<close>) is dropped and the first row containing
  \<^verbatim>\<open>em\<close>, book \<open>b1\<close>, is returned.
\<close>

theorem ambiguous_query_selects_first_match:
  "get_possible_books shelf ''em'' = [''Emma in Love'', ''Emily of New Moon'', ''Emma'']
   \<and> name_to_bookId re shelf (Some ''em'') [''Emily'']
     = (Some ''b1'', [],
        [''em'', ''Book not found!'', ''Did you mean: '', ''Emma in Love'',
         ''Emily of New Moon'', ''Emma'', ''Book not found!'', ''Did you mean: '',
         ''Emma in Love'', ''Emily of New Moon'', ''Emma'', ''Book: '', ''emily''])"
proof -
  have "lower ''em'' = ''em''" by (simp add: lower_def lower_char_def)
  then have "name_to_bookId re shelf (Some ''em'') [''Emily'']
     = (Some ''b1'', [],
        [''em'', ''Book not found!'', ''Did you mean: '', ''Emma in Love'',
         ''Emily of New Moon'', ''Emma'', ''Book not found!'', ''Did you mean: '',
         ''Emma in Love'', ''Emily of New Moon'', ''Emma'', ''Book: '', ''emily''])"
    by (subst name_to_bookId.simps)
       (simp add: ask_name_def correct_name_shelf_em first_match_shelf_em reprompt_emily)
  moreover have "get_possible_books shelf ''em''
                 = [''Emma in Love'', ''Emily of New Moon'', ''Emma'']"
    by (simp add: get_possible_books_def shelf_def mk_book_def lower_def lower_char_def
        sublist_Cons_right)
  ultimately show ?thesis by simp
qed

section \<open>Properties of the entry point\<close>

lemma similar_summary_error:
  "similar_summary ft cs data key k = Inl e \<Longrightarrow> e = KeyError \<or> e = IndexError"
  by (auto simp: similar_summary_def split: sum.splits dest: get_loc_error collect_error)

lemma similar_genre_error:
  "similar_genre ft cs data key k = Inl e \<Longrightarrow> e = KeyError \<or> e = IndexError"
  by (auto simp: similar_genre_def split: sum.splits dest: get_loc_error collect_error)

lemma similar_summary_absent:
  "key \<notin> bookId ` set data \<Longrightarrow> similar_summary ft cs data key k = Inl KeyError"
  by (simp add: similar_summary_def get_loc_absent)

lemma similar_genre_absent:
  "key \<notin> bookId ` set data \<Longrightarrow> similar_genre ft cs data key k = Inl KeyError"
  by (simp add: similar_genre_def get_loc_absent)

text \<open>The sample catalog with identifiers as labels: resolution and ranking.\<close>

lemma loaded_shelf_labels: "None \<notin> bookId ` set loaded_shelf"
  by (simp add: loaded_shelf_def mk_book_def)

lemma resolve_zzz:
  "name_to_bookId re loaded_shelf (Some ''zzz'') [] = (None, [], [''zzz'', ''Book not found!''])"
proof -
  have "get_possible_books loaded_shelf ''zzz'' = []"
    by (simp add: get_possible_books_def loaded_shelf_def mk_book_def lower_def lower_char_def
        sublist_Cons_right)
  moreover have "lower ''zzz'' = ''zzz''" by (simp add: lower_def lower_char_def)
  ultimately show ?thesis
    using name_to_bookId_not_found [of loaded_shelf "''zzz''" re "[]"] by simp
qed

lemma resolve_emma_loaded:
  "name_to_bookId re loaded_shelf (Some ''Emma'') stdin = (Some (Some ''b1''), stdin, [''emma''])"
proof -
  have "lower ''Emma'' = ''emma''" by (simp add: lower_def lower_char_def)
  moreover have "correct_name loaded_shelf ''emma'' = (NoResult, [])"
    by (simp add: correct_name_def loaded_shelf_def mk_book_def lower_def lower_char_def)
  moreover have "first_match re loaded_shelf ''emma'' = Inr (Some ''b1'')"
    by (simp add: first_match_def str_contains_def is_literal_def loaded_shelf_def mk_book_def
        lower_def lower_char_def sublist_Cons_right)
  ultimately show ?thesis
    by (subst name_to_bookId.simps) (simp add: ask_name_def)
qed

lemma ranked_ids_loaded_shelf:
  "ranked_ids demo_fit_transform demo_cosine loaded_shelf 0 = [Some ''b1'', Some ''b3'', Some ''b2'']"
proof -
  have "sorted_similar_books demo_fit_transform demo_cosine loaded_shelf 0
        = [(0, 1), (2, 1), (1, 0)]"
    by (simp add: sorted_similar_books_def tfidf_matrix_def cosine_similarity_def
        sorted_reverse_def demo_fit_transform_def demo_cosine_def loaded_shelf_def mk_book_def
        upt_rec enumerate_eq_zip)
  then show ?thesis
    by (simp add: ranked_ids_def) (simp add: loaded_shelf_def mk_book_def)
qed

text \<open>
  Claim C5. When the title resolves to \<open>b\<close>, the mode is unset (any false value) and
  the catalog has at least \<open>2k + 1\<close> rows, the collection handed on for display is the
  set union of \<^verbatim>\<open>similar_summary(b, k)\<close> and \<^verbatim>\<open>similar_genre(b, k)\<close>: a set, so without
  duplicates and without order, of at most \<open>2k\<close> identifiers.
\<close>

theorem combined_mode_union:
  assumes "fst (name_to_bookId re data book_name stdin) = Some b"
    and "\<not> truthy type"
    and "2 * k + 1 \<le> int (length data)"
  shows "\<exists>xs ys. similar_summary ft cs data b k = Inr xs
           \<and> similar_genre ft cs data b k = Inr ys
           \<and> fst (recommend_books ft cs re data book_name type k stdin)
               = Inr (BookSet (set xs \<union> set ys))
           \<and> card (set xs \<union> set ys) \<le> nat (2 * k)"
proof -
  obtain loc where loc: "get_loc (map bookId data) b = Inr loc"
    using get_loc_present [of b "map bookId data"] name_to_bookId_member [OF assms(1)] by auto
  let ?r = "ranked_ids ft cs data loc"
  let ?xs = "take (nat k) (drop 1 ?r)"
  let ?ys = "take (nat k) (drop (nat k + 1) ?r)"
  have s: "similar_summary ft cs data b k = Inr ?xs"
    and g: "similar_genre ft cs data b k = Inr ?ys"
    using similar_slices [OF loc assms(3), of ft cs] by simp_all
  have modes: "type \<noteq> PyStr ''summary''" "type \<noteq> PyStr ''genres''"
    using assms(2) by auto
  have "fst (recommend_books ft cs re data book_name type k stdin)
        = Inr (BookSet (set ?xs \<union> set ?ys))"
    using assms(1,2) modes s g by (simp add: recommend_books_def Let_def)
  moreover have "card (set ?xs \<union> set ?ys) \<le> nat (2 * k)"
  proof -
    have "card (set ?xs \<union> set ?ys) \<le> card (set ?xs) + card (set ?ys)"
      by (rule card_Un_le)
    also have "\<dots> \<le> length ?xs + length ?ys"
      by (intro add_mono card_length)
    also have "\<dots> \<le> nat k + nat k" by simp
    also have "\<dots> = nat (2 * k)" by simp
    finally show ?thesis .
  qed
  ultimately show ?thesis using s g by blast
qed

theorem combined_mode_union_witness:
  "fst (recommend_books demo_fit_transform demo_cosine (\<lambda>pat. None) loaded_shelf (Some ''Emma'')
          PyNone 1 []) = Inr (BookSet {Some ''b3'', Some ''b2''})
   \<and> card {Some ''b3'', Some ''b2''} \<le> nat (2 * 1)"
proof -
  have res: "fst (name_to_bookId (\<lambda>pat. None) loaded_shelf (Some ''Emma'') []) = Some (Some ''b1'')"
    using resolve_emma_loaded [of "\<lambda>pat. None" "[]"] by simp
  have size: "2 * (1::int) + 1 \<le> int (length loaded_shelf)" by (simp add: loaded_shelf_def)
  have loc: "get_loc (map bookId loaded_shelf) (Some ''b1'') = Inr 0"
    by (simp add: loaded_shelf_def mk_book_def)
  have s: "similar_summary demo_fit_transform demo_cosine loaded_shelf (Some ''b1'') 1
           = Inr [Some ''b3'']"
    and g: "similar_genre demo_fit_transform demo_cosine loaded_shelf (Some ''b1'') 1
           = Inr [Some ''b2'']"
    using similar_slices [OF loc size, of demo_fit_transform demo_cosine]
    by (simp_all add: ranked_ids_loaded_shelf)
  have t: "\<not> truthy PyNone" by simp
  from combined_mode_union [OF res t size, of demo_fit_transform demo_cosine]
  show ?thesis by (auto simp: s g)
qed

lemma unbound_only_without_branch:
  "(if type = PyStr ''summary'' then map_sum id BookList (similar_summary ft cs data key k)
    else if type = PyStr ''genres'' then map_sum id BookList (similar_genre ft cs data key k)
    else if \<not> truthy type then
      (case similar_summary ft cs data key k of
         Inl e \<Rightarrow> Inl e
       | Inr xs \<Rightarrow>
           (case similar_genre ft cs data key k of
              Inl e \<Rightarrow> Inl e
            | Inr ys \<Rightarrow> Inr (BookSet (set (xs @ ys)))))
    else Inl UnboundLocalError) = Inl UnboundLocalError
   \<longleftrightarrow> truthy type \<and> type \<noteq> PyStr ''summary'' \<and> type \<noteq> PyStr ''genres''"
proof -
  have s: "similar_summary ft cs data key k \<noteq> Inl UnboundLocalError"
    using similar_summary_error by fastforce
  have g: "similar_genre ft cs data key k \<noteq> Inl UnboundLocalError"
    using similar_genre_error by fastforce
  have s': "map_sum id BookList (similar_summary ft cs data key k) \<noteq> Inl UnboundLocalError"
    using s by (cases "similar_summary ft cs data key k") auto
  have g': "map_sum id BookList (similar_genre ft cs data key k) \<noteq> Inl UnboundLocalError"
    using g by (cases "similar_genre ft cs data key k") auto
  have c: "(case similar_summary ft cs data key k of
              Inl e \<Rightarrow> Inl e
            | Inr xs \<Rightarrow>
                (case similar_genre ft cs data key k of
                   Inl e \<Rightarrow> Inl e
                 | Inr ys \<Rightarrow> Inr (BookSet (set (xs @ ys))))) \<noteq> Inl UnboundLocalError"
    using s g by (auto split: sum.splits)
  show ?thesis
    using s' g' c by auto
qed

text \<open>
  Claim C9. \<^verbatim>\<open>recommend_books\<close> raises \<^verbatim>\<open>UnboundLocalError\<close> exactly when \<^verbatim>\<open>type\<close> is a
  true value other than \<^verbatim>\<open>'summary'\<close> and \<^verbatim>\<open>'genres'\<close>: then no branch binds
  \<^verbatim>\<open>books\<close>. The accepted modes are \<^verbatim>\<open>'summary'\<close>, \<^verbatim>\<open>'genres'\<close> and every false value.
\<close>

theorem unbound_books:
  "fst (recommend_books ft cs re data book_name type k stdin) = Inl UnboundLocalError
   \<longleftrightarrow> truthy type \<and> type \<noteq> PyStr ''summary'' \<and> type \<noteq> PyStr ''genres''"
  unfolding recommend_books_def Let_def fst_conv by (rule unbound_only_without_branch)

theorem unbound_books_witness:
  "fst (recommend_books demo_fit_transform demo_cosine (\<lambda>pat. None) loaded_shelf (Some ''Emma'')
          (PyStr ''genre'') 1 []) = Inl UnboundLocalError"
  using unbound_books [of demo_fit_transform demo_cosine "\<lambda>pat. None" loaded_shelf
      "Some ''Emma''" "PyStr ''genre''" 1 "[]"]
  by simp

text \<open>
  Claim C6, as amended. When title resolution returns no identifier and every catalog
  row has its identifier, no recommendation list is computed or handed on for display,
  and the call does not return: it raises \<^verbatim>\<open>KeyError\<close> from the index lookup of \<^verbatim>\<open>None\<close>
  in the modes \<^verbatim>\<open>'summary'\<close>, \<^verbatim>\<open>'genres'\<close> and unset (\<^verbatim>\<open>UnboundLocalError\<close> in any other
  mode). The console output is that of the resolver.
\<close>

theorem unresolved_query_raises:
  assumes "fst (name_to_bookId re data book_name stdin) = None"
    and "None \<notin> bookId ` set data"
  shows "recommend_books ft cs re data book_name type k stdin
         = (Inl (if type = PyStr ''summary'' \<or> type = PyStr ''genres'' \<or> \<not> truthy type
                 then KeyError else UnboundLocalError),
            snd (snd (name_to_bookId re data book_name stdin)))"
  using assms
  by (simp add: recommend_books_def Let_def similar_summary_absent similar_genre_absent)

theorem unresolved_query_raises_witness:
  "recommend_books demo_fit_transform demo_cosine (\<lambda>pat. None) loaded_shelf (Some ''zzz'')
     (PyStr ''genres'') 5 []
   = (Inl KeyError, [''zzz'', ''Book not found!''])"
proof -
  have "fst (name_to_bookId (\<lambda>pat. None) loaded_shelf (Some ''zzz'') [])
        = (None :: string option option)"
    by (simp add: resolve_zzz)
  from unresolved_query_raises [OF this loaded_shelf_labels,
      of demo_fit_transform demo_cosine "PyStr ''genres''" 5]
  show ?thesis by (simp add: resolve_zzz)
qed

text \<open>
  Claim C6 as stated fails: for a title that is not found, the call ends with an
  unhandled \<^verbatim>\<open>KeyError\<close> instead of returning silently.
\<close>

theorem silent_return_counterexample:
  "fst (name_to_bookId (\<lambda>pat. None) loaded_shelf (Some ''zzz'') [])
     = (None :: string option option)
   \<and> fst (recommend_books demo_fit_transform demo_cosine (\<lambda>pat. None) loaded_shelf
            (Some ''zzz'') (PyStr ''summary'') 5 []) = Inl KeyError"
  by (simp add: recommend_books_def resolve_zzz similar_summary_absent loaded_shelf_labels)

text \<open>
  The condition on the labels is needed. In the catalog loaded from the three sample
  rows the first record has no identifier; the lookup of \<^verbatim>\<open>None\<close> finds that row, and
  a list is computed for a title that was not found.
\<close>

lemma unresolved_query_finds_unlabelled_row:
  "fst (name_to_bookId (\<lambda>pat. None) (load [nameless, blank_description, complete_row])
          (Some ''zzz'') []) = None
   \<and> fst (recommend_books demo_fit_transform demo_cosine (\<lambda>pat. None)
            (load [nameless, blank_description, complete_row]) (Some ''zzz'')
            (PyStr ''summary'') 1 []) = Inr (BookList [Some ''r3''])"
proof -
  define data where "data = load [nameless, blank_description, complete_row]"
  have data: "data = [\<lparr>bookId = None, author = ''anon'', title = ''Untitled'', rating = 3,
         description = ''lost pages'', isbn = ''1'', genres = ''[]'', coverImg = ''http://img''\<rparr>,
        \<lparr>bookId = Some ''r3'', author = ''anon'', title = ''Whole'', rating = 5,
         description = ''all there'', isbn = ''3'', genres = ''[]'', coverImg = ''http://img''\<rparr>]"
    by (simp add: data_def load_def List.map_filter_def keep_row_def nameless_def
        blank_description_def complete_row_def)
  have "get_possible_books data ''zzz'' = []"
    by (simp add: data get_possible_books_def lower_def lower_char_def sublist_Cons_right)
  then have res: "fst (name_to_bookId (\<lambda>pat. None) data (Some ''zzz'') []) = None"
    using name_to_bookId_not_found [of data "''zzz''" "\<lambda>pat. None" "[]"] by simp
  have "similar_summary demo_fit_transform demo_cosine data None 1 = Inr [Some ''r3'']"
    by (simp add: data similar_summary_def sorted_similar_books_def tfidf_matrix_def
        cosine_similarity_def sorted_reverse_def demo_fit_transform_def demo_cosine_def upt_rec
        enumerate_eq_zip py_range_def upto.simps py_index_def iloc_def)
  then have "fst (recommend_books demo_fit_transform demo_cosine (\<lambda>pat. None) data (Some ''zzz'')
                   (PyStr ''summary'') 1 []) = Inr (BookList [Some ''r3''])"
    using res by (simp add: recommend_books_def Let_def)
  then show ?thesis using res by (simp add: data_def)
qed

section \<open>Properties of the loader\<close>

lemma keep_row_Some_iff: "keep_row r = Some b \<longleftrightarrow> of_row r b"
  by (cases b) (auto simp: keep_row_def of_row_def split: option.splits)

lemma keep_row_None_iff: "keep_row r = None \<longleftrightarrow> \<not> columns_populated r"
  by (auto simp: keep_row_def columns_populated_def split: option.splits)

lemma length_map_filter: "length (List.map_filter f xs) = length (filter (\<lambda>x. f x \<noteq> None) xs)"
  by (simp add: List.map_filter_def)

text \<open>
  Claim C8, as amended. The loader keeps exactly the rows whose seven data columns
  (author, title, rating, description, isbn, genres, cover-image URL) are all present:
  every catalog record carries the cells of such a row, every such row has its record,
  and the catalog size is the number of such rows. The identifier is not checked.
\<close>

theorem load_keeps_populated_columns:
  "(\<forall>b\<in>set (load rows). \<exists>r\<in>set rows. of_row r b)
   \<and> (\<forall>r\<in>set rows. columns_populated r \<longrightarrow> (\<exists>b\<in>set (load rows). of_row r b))
   \<and> length (load rows) = length (filter columns_populated rows)"
proof (intro conjI ballI impI)
  fix b assume "b \<in> set (load rows)"
  then obtain r where "r \<in> set rows" "keep_row r = Some b"
    by (auto simp: load_def List.map_filter_def)
  then show "\<exists>r\<in>set rows. of_row r b" using keep_row_Some_iff by blast
next
  fix r assume r: "r \<in> set rows" "columns_populated r"
  then obtain b where b: "keep_row r = Some b" using keep_row_None_iff [of r] by auto
  then have "b \<in> set (load rows)"
    using r(1) by (force simp: load_def List.map_filter_def)
  then show "\<exists>b\<in>set (load rows). of_row r b" using b keep_row_Some_iff by blast
next
  have "(\<lambda>r. keep_row r \<noteq> None) = columns_populated"
    using keep_row_None_iff by auto
  then show "length (load rows) = length (filter columns_populated rows)"
    by (simp add: load_def length_map_filter)
qed

theorem load_keeps_populated_columns_witness:
  "load [nameless, blank_description, complete_row]
     = [\<lparr>bookId = None, author = ''anon'', title = ''Untitled'', rating = 3,
         description = ''lost pages'', isbn = ''1'', genres = ''[]'', coverImg = ''http://img''\<rparr>,
        \<lparr>bookId = Some ''r3'', author = ''anon'', title = ''Whole'', rating = 5,
         description = ''all there'', isbn = ''3'', genres = ''[]'', coverImg = ''http://img''\<rparr>]
   \<and> length (load [nameless, blank_description, complete_row])
     = length (filter columns_populated [nameless, blank_description, complete_row])"
  using load_keeps_populated_columns [of "[nameless, blank_description, complete_row]"]
  by (simp add: load_def List.map_filter_def keep_row_def nameless_def blank_description_def
      complete_row_def columns_populated_def)

text \<open>
  Claim C8 as stated fails: a row without identifier whose other fields are present is
  kept, so the catalog holds a record with a missing identifier and is larger than the
  number of fully populated rows.
\<close>

theorem load_keeps_row_without_id_counterexample:
  "\<not> fully_populated nameless
   \<and> length (load [nameless]) \<noteq> length (filter fully_populated [nameless])
   \<and> map bookId (load [nameless]) = [None]"
  by (simp add: load_def List.map_filter_def keep_row_def nameless_def fully_populated_def)

end
